theory Spec2Isabelle
  imports Complex_Main "HOL-Library.AList"
begin

section \<open>btf_helper/btfzip.py: angle-indexed access to images in a zip archive\<close>

text \<open>
  The module has one class, \<^verbatim>\<open>Btfzip\<close>, with a constructor that builds a dictionary
  from angle tuples to archive paths, a static filename parser and one lookup method.
  Python's \<^verbatim>\<open>str\<close> is modelled as \<^typ>\<open>string\<close>, exceptions as the left summand of
  a sum type, and the standard error stream as the list of lines written to it.

  What the code calls outside the repository is taken as a parameter:
  \<^item> \<open>pyfloat\<close>, the builtin \<^verbatim>\<open>float\<close> on a string: \<open>None\<close> when it raises
    \<^verbatim>\<open>ValueError\<close>, otherwise the float. The type \<open>'f\<close> stands for the float values
    compared with \<^verbatim>\<open>==\<close> (not-a-number values, which are unequal to themselves, are
    outside the model);
  \<^item> \<open>set_iter\<close>, the order in which a Python set is iterated, given the elements as a
    duplicate-free list: some arrangement of that list;
  \<^item> \<open>int_as_float\<close>, the float that compares (and hashes) equal to an \<^verbatim>\<open>int\<close>, if
    there is one;
  \<^item> \<open>imdecode\<close>, the image codec applied to the bytes of an entry: the decoded array
    (\<open>Inr\<close>) or the message of the exception raised (\<open>Inl\<close>).
\<close>

subsection \<open>Values and exceptions\<close>

type_synonym 'f AnglesTuple = "'f \<times> 'f \<times> 'f \<times> 'f"

text \<open>A number passed to the lookup method: the type hints say \<^verbatim>\<open>int\<close>, the keys of the
  dictionary are floats.\<close>

datatype 'f pynum = PyInt int | PyFloat 'f

datatype 'f exn =
    ValueError_empty_separator
  | ValueError_invalid_angle "string list"
  | IndexError
  | TypeError_missing_sep
  | RuntimeError_duplicated string
  | ValueError_not_exist "'f pynum \<times> 'f pynum \<times> 'f pynum \<times> 'f pynum" string
  | KeyError string
  | ExternalError string

text \<open>The exception class of each value: \<^verbatim>\<open>ValueError\<close> or something else.\<close>

fun is_ValueError :: "'f exn \<Rightarrow> bool" where
  "is_ValueError ValueError_empty_separator = True"
| "is_ValueError (ValueError_invalid_angle _) = True"
| "is_ValueError (ValueError_not_exist _ _) = True"
| "is_ValueError _ = False"

text \<open>One line on \<^verbatim>\<open>stderr\<close>:
  \<^verbatim>\<open>[BTF-Helper] '{zip_filepath}' has{counter} files with condition {angles}.\<close>\<close>

datatype 'f stderr_line = Has_files string nat "'f AnglesTuple"

subsection \<open>String operations of Python\<close>

text \<open>\<^verbatim>\<open>s.endswith(suffix)\<close>\<close>

definition endswith :: "string \<Rightarrow> string \<Rightarrow> bool" where
  "endswith s suffix =
     (length suffix \<le> length s \<and> drop (length s - length suffix) s = suffix)"

text \<open>\<^verbatim>\<open>s.split(sep)\<close> for a non-empty \<open>sep\<close>: the occurrences of \<open>sep\<close> are found from
  the left and do not overlap; \<open>acc\<close> holds the current piece, reversed. The result is
  never the empty list.\<close>

function split_from :: "string \<Rightarrow> string \<Rightarrow> string \<Rightarrow> string list" where
  "split_from sep acc [] = [rev acc]"
| "split_from sep acc (c # cs) =
     (if sep \<noteq> [] \<and> take (length sep) (c # cs) = sep
      then rev acc # split_from sep [] (drop (length sep) (c # cs))
      else split_from sep (c # acc) cs)"
  by pat_completeness auto
termination
  by (relation "measure (\<lambda>(sep, acc, s). length s)") auto

text \<open>\<^verbatim>\<open>s.split(sep)\<close>: an empty separator raises \<^verbatim>\<open>ValueError\<close>.\<close>

definition str_split :: "string \<Rightarrow> string \<Rightarrow> 'f exn + string list" where
  "str_split s sep = (if sep = [] then Inl ValueError_empty_separator
                      else Inr (split_from sep [] s))"

subsection \<open>The filename parser\<close>

text \<open>\<^verbatim>\<open>filename.split("/")[-1][:-4]\<close>: the last path segment without its last four
  characters (the empty string when it has at most four).\<close>

definition stem :: "string \<Rightarrow> string" where
  "stem filename =
     (let segment = last (split_from ''/'' [] filename)
      in take (length segment - 4) segment)"

text \<open>\<^verbatim>\<open>float(angles[i][2:])\<close> inside the \<^verbatim>\<open>try\<close> block: an index out of range raises
  \<^verbatim>\<open>IndexError\<close>, which the handler does not catch; a \<^verbatim>\<open>ValueError\<close> of \<^verbatim>\<open>float\<close>
  is caught and raised again as \<^verbatim>\<open>ValueError("invalid angle:", angles)\<close>.\<close>

definition float_token ::
  "(string \<Rightarrow> 'f option) \<Rightarrow> string list \<Rightarrow> nat \<Rightarrow> 'f exn + 'f" where
  "float_token pyfloat angles i =
     (if i < length angles
      then (case pyfloat (drop 2 (angles ! i)) of
              None \<Rightarrow> Inl (ValueError_invalid_angle angles)
            | Some v \<Rightarrow> Inr v)
      else Inl IndexError)"

text \<open>\<^verbatim>\<open>Btfzip._filename_to_angles(filename, sep)\<close>\<close>

definition filename_to_angles ::
  "(string \<Rightarrow> 'f option) \<Rightarrow> string \<Rightarrow> string \<Rightarrow> 'f exn + 'f AnglesTuple" where
  "filename_to_angles pyfloat filename sep =
     (case str_split (stem filename) sep of
        Inl e \<Rightarrow> Inl e
      | Inr angles \<Rightarrow>
         (case float_token pyfloat angles 0 of Inl e \<Rightarrow> Inl e | Inr a \<Rightarrow>
          (case float_token pyfloat angles 1 of Inl e \<Rightarrow> Inl e | Inr b \<Rightarrow>
           (case float_token pyfloat angles 2 of Inl e \<Rightarrow> Inl e | Inr c \<Rightarrow>
            (case float_token pyfloat angles 3 of Inl e \<Rightarrow> Inl e | Inr d \<Rightarrow>
               Inr (a, b, c, d))))))"

text \<open>A call of the static method with the positional arguments given: without \<open>sep\<close>
  the call raises \<^verbatim>\<open>TypeError\<close> (missing required positional argument) before the body
  runs.\<close>

definition call_filename_to_angles ::
  "(string \<Rightarrow> 'f option) \<Rightarrow> string \<Rightarrow> string option \<Rightarrow> 'f exn + 'f AnglesTuple" where
  "call_filename_to_angles pyfloat filename sep_arg =
     (case sep_arg of
        None \<Rightarrow> Inl TypeError_missing_sep
      | Some sep \<Rightarrow> filename_to_angles pyfloat filename sep)"

subsection \<open>A float parser for the examples\<close>

text \<open>An instance of \<open>pyfloat\<close> for evaluating examples: unsigned decimal literals
  (\<^verbatim>\<open>12\<close>, \<^verbatim>\<open>20.25\<close>, \<^verbatim>\<open>0.\<close>, \<^verbatim>\<open>.5\<close>) with their value as a rational. The examples
  use it on such literals with an exactly representable value, where \<^verbatim>\<open>float\<close> returns
  that value, and on strings \<^verbatim>\<open>float\<close> rejects.\<close>

definition digit_val :: "char \<Rightarrow> nat option" where
  "digit_val c =
     (let n = (of_char c :: nat) in if 48 \<le> n \<and> n \<le> 57 then Some (n - 48) else None)"

fun digits_val :: "nat \<Rightarrow> string \<Rightarrow> nat option" where
  "digits_val n [] = Some n"
| "digits_val n (c # cs) =
     (case digit_val c of None \<Rightarrow> None | Some d \<Rightarrow> digits_val (10 * n + d) cs)"

definition dec_float :: "string \<Rightarrow> rat option" where
  "dec_float s =
     (let ip = takeWhile (\<lambda>c. c \<noteq> CHR ''.'') s;
          rest = dropWhile (\<lambda>c. c \<noteq> CHR ''.'') s;
          fp = (if rest = [] then [] else tl rest)
      in if ip = [] \<and> fp = [] then None
         else (case digits_val 0 (ip @ fp) of
                 None \<Rightarrow> None
               | Some m \<Rightarrow> Some (of_nat m / 10 ^ length fp)))"

definition int_as_rat :: "int \<Rightarrow> rat option" where
  "int_as_rat n = Some (of_int n)"

subsection \<open>The archive and the object\<close>

text \<open>The \<^verbatim>\<open>ZipFile\<close> handle, as far as the class uses it: the entries of the
  archive that \<^verbatim>\<open>ZipFile(zip_filepath)\<close> has opened, in archive order, each a name with
  what reading it gives: the bytes (\<open>Inr\<close>) or the message of the exception raised
  (\<open>Inl\<close>).\<close>

type_synonym zipfile = "(string \<times> (string + string)) list"

text \<open>\<^verbatim>\<open>z.namelist()\<close>\<close>

definition namelist :: "zipfile \<Rightarrow> string list" where
  "namelist z = map fst z"

text \<open>\<^verbatim>\<open>z.open(path).read()\<close>: of several entries with one name the last is read; an
  unknown name raises \<^verbatim>\<open>KeyError\<close>.\<close>

definition open_read :: "zipfile \<Rightarrow> string \<Rightarrow> 'f exn + string" where
  "open_read z path =
     (case map_of (rev z) path of
        None \<Rightarrow> Inl (KeyError path)
      | Some (Inl msg) \<Rightarrow> Inl (ExternalError msg)
      | Some (Inr bytes) \<Rightarrow> Inr bytes)"

text \<open>The attributes of a \<^verbatim>\<open>Btfzip\<close> object. The dictionary is an association list
  with distinct keys in insertion order, the frozen set of its keys a set.\<close>

record 'f Btfzip =
  zip_filepath :: string
  private_z :: zipfile
  private_angles_vs_filepath_dict :: "('f AnglesTuple \<times> string) list"
  angles_set :: "'f AnglesTuple set"

subsection \<open>The constructor\<close>

text \<open>\<^verbatim>\<open>{self._filename_to_angles(path, angle_sep): path for path in filepath_set}\<close>:
  the first exception of the parser ends the comprehension; a key that is already
  present keeps its place and takes the new path.\<close>

fun dict_comprehension ::
  "(string \<Rightarrow> 'f option) \<Rightarrow> string \<Rightarrow> string list \<Rightarrow> ('f AnglesTuple \<times> string) list
     \<Rightarrow> 'f exn + ('f AnglesTuple \<times> string) list" where
  "dict_comprehension pyfloat sep [] d = Inr d"
| "dict_comprehension pyfloat sep (path # paths) d =
     (case call_filename_to_angles pyfloat path (Some sep) of
        Inl e \<Rightarrow> Inl e
      | Inr angles \<Rightarrow> dict_comprehension pyfloat sep paths (AList.update angles path d))"

text \<open>\<^verbatim>\<open>[self._filename_to_angles(path) for path in filepath_set]\<close>: the list
  comprehension of the duplicate branch, which passes no separator.\<close>

fun list_comprehension ::
  "(string \<Rightarrow> 'f option) \<Rightarrow> string list \<Rightarrow> 'f exn + 'f AnglesTuple list" where
  "list_comprehension pyfloat [] = Inr []"
| "list_comprehension pyfloat (path # paths) =
     (case call_filename_to_angles pyfloat path None of
        Inl e \<Rightarrow> Inl e
      | Inr angles \<Rightarrow>
         (case list_comprehension pyfloat paths of
            Inl e \<Rightarrow> Inl e
          | Inr rest \<Rightarrow> Inr (angles # rest)))"

text \<open>\<^verbatim>\<open>Counter(angles_list).items()\<close>: each element with its number of occurrences,
  in the order of first occurrence.\<close>

fun Counter :: "'a list \<Rightarrow> ('a \<times> nat) list \<Rightarrow> ('a \<times> nat) list" where
  "Counter [] c = c"
| "Counter (x # xs) c =
     Counter xs (AList.update x (case map_of c x of None \<Rightarrow> 1 | Some n \<Rightarrow> n + 1) c)"

text \<open>\<^verbatim>\<open>Btfzip.__init__(zip_filepath, file_ext, angle_sep)\<close>: the result is the exception
  raised or the object, together with the lines written to \<^verbatim>\<open>stderr\<close>.\<close>

definition Btfzip_init ::
  "(string list \<Rightarrow> string list) \<Rightarrow> (string \<Rightarrow> 'f option) \<Rightarrow> string \<Rightarrow> zipfile \<Rightarrow> string
     \<Rightarrow> string \<Rightarrow> ('f exn + 'f Btfzip) \<times> 'f stderr_line list" where
  "Btfzip_init set_iter pyfloat zip_filepath_arg z file_ext angle_sep =
     (let filepath_set =
            set_iter (remdups (filter (\<lambda>path. endswith path file_ext) (namelist z)))
      in case dict_comprehension pyfloat angle_sep filepath_set [] of
           Inl e \<Rightarrow> (Inl e, [])
         | Inr d \<Rightarrow>
            (let keys = set (map fst d)
             in if length filepath_set \<noteq> card keys
                then (case list_comprehension pyfloat filepath_set of
                        Inl e \<Rightarrow> (Inl e, [])
                      | Inr angles_list \<Rightarrow>
                         (Inl (RuntimeError_duplicated zip_filepath_arg),
                          map (\<lambda>(angles, counter). Has_files zip_filepath_arg counter angles)
                            (filter (\<lambda>(angles, counter). counter > 1)
                               (Counter angles_list []))))
                else (Inr \<lparr>zip_filepath = zip_filepath_arg, private_z = z,
                           private_angles_vs_filepath_dict = d, angles_set = keys\<rparr>,
                      [])))"

subsection \<open>Lookup and decode\<close>

text \<open>The float a key component is equal to under \<^verbatim>\<open>==\<close>.\<close>

fun num_float :: "(int \<Rightarrow> 'f option) \<Rightarrow> 'f pynum \<Rightarrow> 'f option" where
  "num_float int_as_float (PyInt n) = int_as_float n"
| "num_float int_as_float (PyFloat x) = Some x"

text \<open>\<^verbatim>\<open>d.get(key)\<close> for a dictionary with float tuples as keys: the value stored under
  the key that is equal to \<open>key\<close>, component by component.\<close>

fun dict_get ::
  "(int \<Rightarrow> 'f option) \<Rightarrow> ('f AnglesTuple \<times> string) list
     \<Rightarrow> 'f pynum \<times> 'f pynum \<times> 'f pynum \<times> 'f pynum \<Rightarrow> string option" where
  "dict_get int_as_float d (tl_arg, pl_arg, tv_arg, pv_arg) =
     (case (num_float int_as_float tl_arg, num_float int_as_float pl_arg,
            num_float int_as_float tv_arg, num_float int_as_float pv_arg) of
        (Some a, Some b, Some c, Some e) \<Rightarrow> map_of d (a, b, c, e)
      | _ \<Rightarrow> None)"

text \<open>\<^verbatim>\<open>Btfzip.angles_to_image(tl, pl, tv, pv)\<close>: the result and the object after the
  call. \<^verbatim>\<open>not filepath\<close> holds for \<^verbatim>\<open>None\<close> and for the empty string. Exceptions of
  the archive and of the codec pass through.\<close>

definition angles_to_image ::
  "(int \<Rightarrow> 'f option) \<Rightarrow> (string \<Rightarrow> string + 'img) \<Rightarrow> 'f Btfzip
     \<Rightarrow> 'f pynum \<times> 'f pynum \<times> 'f pynum \<times> 'f pynum \<Rightarrow> ('f exn + 'img) \<times> 'f Btfzip" where
  "angles_to_image int_as_float imdecode self key =
     (let filepath = dict_get int_as_float (private_angles_vs_filepath_dict self) key
      in if filepath = None \<or> filepath = Some []
         then (Inl (ValueError_not_exist key (zip_filepath self)), self)
         else (case open_read (private_z self) (the filepath) of
                 Inl e \<Rightarrow> (Inl e, self)
               | Inr bytes \<Rightarrow>
                  (case imdecode bytes of
                     Inl msg \<Rightarrow> (Inl (ExternalError msg), self)
                   | Inr img \<Rightarrow> (Inr img, self))))"

section \<open>Properties\<close>

subsection \<open>Splitting and the stem\<close>

lemma split_from_no_sep:
  "c \<notin> set s \<Longrightarrow> split_from [c] acc s = [rev acc @ s]"
  by (induction s arbitrary: acc) auto

lemma split_from_at_sep:
  "c \<notin> set s \<Longrightarrow> split_from [c] acc (s @ c # rest) = (rev acc @ s) # split_from [c] [] rest"
  by (induction s arbitrary: acc) auto

lemma split_from_not_Nil: "split_from sep acc s \<noteq> []"
  by (induction sep acc s rule: split_from.induct) auto

lemma last_segment_no_slash:
  "CHR ''/'' \<notin> set s \<Longrightarrow> last (split_from ''/'' [] s) = s"
  by (simp add: split_from_no_sep)

lemma stem_append:
  assumes "CHR ''/'' \<notin> set s" "CHR ''/'' \<notin> set ext" "length ext = 4"
  shows "stem (s @ ext) = s"
  using assms by (simp add: stem_def split_from_no_sep)

lemma split_four:
  assumes "c \<notin> set s1" "c \<notin> set s2" "c \<notin> set s3" "c \<notin> set s4"
  shows "split_from [c] [] (s1 @ c # s2 @ c # s3 @ c # s4) = [s1, s2, s3, s4]"
  using assms by (simp add: split_from_at_sep split_from_no_sep)

subsection \<open>The filename parser\<close>

lemma parse_four_tokens:
  assumes "stem filename = s" "sep \<noteq> []" "split_from sep [] s = [t1, t2, t3, t4]"
    and "pyfloat (drop 2 t1) = Some a" "pyfloat (drop 2 t2) = Some b"
    and "pyfloat (drop 2 t3) = Some c" "pyfloat (drop 2 t4) = Some d"
  shows "filename_to_angles pyfloat filename sep = Inr (a, b, c, d)"
  using assms by (simp add: filename_to_angles_def str_split_def float_token_def)

text \<open>Claim C3. A filename \<^verbatim>\<open>tl{a} pl{b} tv{c} pv{d}.ext\<close> with the default separator and
  a four-character extension, in which the four literals hold no space and no slash and
  \<^verbatim>\<open>float\<close> reads them as \<open>a\<close>, \<open>b\<close>, \<open>c\<close>, \<open>d\<close>, parses to exactly the tuple
  \<open>(a, b, c, d)\<close>, in that order.\<close>

theorem parse_roundtrip:
  assumes fl: "pyfloat sa = Some a" "pyfloat sb = Some b" "pyfloat sc = Some c" "pyfloat sd = Some d"
    and nosp: "CHR '' '' \<notin> set (sa @ sb @ sc @ sd)"
    and nosl: "CHR ''/'' \<notin> set (sa @ sb @ sc @ sd @ ext)"
    and ext: "length ext = 4"
  shows "filename_to_angles pyfloat
           (''tl'' @ sa @ '' pl'' @ sb @ '' tv'' @ sc @ '' pv'' @ sd @ ext) '' ''
         = Inr (a, b, c, d)"
proof -
  define s where "s = ''tl'' @ sa @ '' pl'' @ sb @ '' tv'' @ sc @ '' pv'' @ sd"
  have "CHR ''/'' \<notin> set s"
    using nosl by (simp add: s_def)
  then have "stem (s @ ext) = s"
    using nosl ext by (intro stem_append) auto
  then have st: "stem (''tl'' @ sa @ '' pl'' @ sb @ '' tv'' @ sc @ '' pv'' @ sd @ ext) = s"
    by (simp add: s_def)
  have "split_from '' '' []
          ((''tl'' @ sa) @ CHR '' '' # (''pl'' @ sb) @ CHR '' '' # (''tv'' @ sc) @ CHR '' '' # (''pv'' @ sd))
        = [''tl'' @ sa, ''pl'' @ sb, ''tv'' @ sc, ''pv'' @ sd]"
    using nosp by (intro split_four) auto
  then have sp: "split_from '' '' [] s = [''tl'' @ sa, ''pl'' @ sb, ''tv'' @ sc, ''pv'' @ sd]"
    by (simp add: s_def)
  show ?thesis
    by (rule parse_four_tokens [OF st _ sp]) (simp_all add: fl)
qed

text \<open>The roundtrip at \<^verbatim>\<open>tl20.25 pl10 tv11.5 pv0.exr\<close>, with fractional values.\<close>

theorem parse_roundtrip_witness:
  "filename_to_angles dec_float ''tl20.25 pl10 tv11.5 pv0.exr'' '' '' = Inr (81 / 4, 10, 23 / 2, 0)"
  using parse_roundtrip [of dec_float "''20.25''" "81 / 4" "''10''" 10 "''11.5''" "23 / 2" "''0''" 0 "''.exr''"]
  by (simp add: dec_float_def digit_val_def)

lemma float_token_Inr:
  "float_token pyfloat angles i = Inr v \<longleftrightarrow> i < length angles \<and> pyfloat (drop 2 (angles ! i)) = Some v"
  by (auto simp: float_token_def split: option.splits)

text \<open>Claim C5. When the stem splits into at least four tokens and one of the first four
  is not a float after its two-character label, the parser raises the \<^verbatim>\<open>ValueError\<close>
  that carries the token list.\<close>

theorem parse_error:
  assumes "str_split (stem filename) sep = (Inr angles :: 'f exn + string list)"
    and "4 \<le> length angles"
    and "\<exists>i<4. pyfloat (drop 2 (angles ! i)) = (None :: 'f option)"
  shows "filename_to_angles pyfloat filename sep = Inl (ValueError_invalid_angle angles)
         \<and> is_ValueError (ValueError_invalid_angle angles :: 'f exn)"
proof -
  have tok: "\<And>i. i < 4 \<Longrightarrow> float_token pyfloat angles i =
      (case pyfloat (drop 2 (angles ! i)) of None \<Rightarrow> Inl (ValueError_invalid_angle angles) | Some v \<Rightarrow> Inr v)"
    using assms(2) by (simp add: float_token_def)
  from assms(3) obtain i where i: "i < 4" "pyfloat (drop 2 (angles ! i)) = None" by blast
  then have "i = 0 \<or> i = 1 \<or> i = 2 \<or> i = 3" by arith
  then show ?thesis
    using i(2) assms(1)
    by (auto simp: filename_to_angles_def tok split: sum.splits option.splits)
qed

text \<open>The parse error at \<^verbatim>\<open>tl0 plx tv0 pv0.exr\<close>.\<close>

theorem parse_error_witness:
  "filename_to_angles dec_float ''tl0 plx tv0 pv0.exr'' '' '' = Inl (ValueError_invalid_angle [''tl0'', ''plx'', ''tv0'', ''pv0''])"
proof -
  have 1: "str_split (stem ''tl0 plx tv0 pv0.exr'') '' '' = (Inr [''tl0'', ''plx'', ''tv0'', ''pv0''] :: rat exn + string list)"
    by (simp add: str_split_def stem_def)
  have 2: "\<exists>i<4. dec_float (drop 2 ([''tl0'', ''plx'', ''tv0'', ''pv0''] ! i)) = None"
    by (rule exI [of _ 1]) (simp add: dec_float_def digit_val_def)
  show ?thesis using parse_error [OF 1 _ 2] by simp
qed

text \<open>Claim C10, amended. When the stem splits into fewer than four tokens, the parser
  raises \<^verbatim>\<open>IndexError\<close> if every token present is a float after its label, and the
  \<^verbatim>\<open>ValueError\<close> with the token list otherwise: the tokens are read in order, so a
  token that is not a float is met before the missing index.\<close>

theorem short_name:
  assumes "str_split (stem filename) sep = (Inr angles :: 'f exn + string list)"
    and "length angles < 4"
  shows "filename_to_angles pyfloat filename sep =
           (if \<forall>t \<in> set angles. pyfloat (drop 2 t) \<noteq> (None :: 'f option)
            then Inl IndexError else Inl (ValueError_invalid_angle angles))"
proof -
  have "length angles = 0 \<or> length angles = 1 \<or> length angles = 2 \<or> length angles = 3"
    using assms(2) by arith
  then show ?thesis
    using assms(1)
    by (auto simp: filename_to_angles_def float_token_def length_Suc_conv numeral_3_eq_3 numeral_2_eq_2
          split: sum.splits option.splits)
qed

text \<open>Claim C10 as stated fails at \<^verbatim>\<open>abc.exr\<close>: the stem has one token, and the parser
  does not raise \<^verbatim>\<open>IndexError\<close>.\<close>

theorem short_name_counterexample:
  "\<not> (length (split_from '' '' [] (stem ''abc.exr'')) < 4
       \<longrightarrow> filename_to_angles dec_float ''abc.exr'' '' '' = Inl IndexError)"
  by (simp add: filename_to_angles_def stem_def str_split_def float_token_def dec_float_def digit_val_def)

text \<open>Both cases of the amended claim: \<^verbatim>\<open>tl0 pl0.exr\<close> and \<^verbatim>\<open>abc.exr\<close>.\<close>

theorem short_name_witness:
  "filename_to_angles dec_float ''tl0 pl0.exr'' '' '' = Inl IndexError
   \<and> filename_to_angles dec_float ''abc.exr'' '' '' = Inl (ValueError_invalid_angle [''abc''])"
proof -
  have 1: "str_split (stem ''tl0 pl0.exr'') '' '' = (Inr [''tl0'', ''pl0''] :: rat exn + string list)"
    by (simp add: str_split_def stem_def)
  have 2: "str_split (stem ''abc.exr'') '' '' = (Inr [''abc''] :: rat exn + string list)"
    by (simp add: str_split_def stem_def)
  show ?thesis
    using short_name [OF 1, of dec_float] short_name [OF 2, of dec_float]
    by (simp add: dec_float_def digit_val_def)
qed

subsection \<open>The constructor\<close>

text \<open>The list comprehension of the duplicate branch calls the parser without a
  separator, so it raises as soon as there is a path.\<close>

lemma list_comprehension_no_sep:
  "list_comprehension pyfloat paths = (if paths = [] then Inr [] else Inl TypeError_missing_sep)"
  by (cases paths) (simp_all add: call_filename_to_angles_def)

lemma update_fresh_key:
  "k \<notin> fst ` set d \<Longrightarrow> AList.update k v d = d @ [(k, v)]"
  by (induction d) auto

lemma set_update_subset: "set (AList.update k v d) \<subseteq> insert (k, v) (set d)"
  by (induction d) auto

lemma dict_comprehension_distinct:
  assumes "\<forall>p \<in> set paths. filename_to_angles pyfloat p sep = Inr (f p)"
    and "distinct (map f paths)"
    and "f ` set paths \<inter> fst ` set d = {}"
  shows "dict_comprehension pyfloat sep paths d = Inr (d @ map (\<lambda>p. (f p, p)) paths)"
  using assms
proof (induction paths arbitrary: d)
  case Nil
  then show ?case by simp
next
  case (Cons p paths)
  have fresh: "f p \<notin> fst ` set d"
    using Cons.prems(3) by auto
  have "f ` set paths \<inter> fst ` set (d @ [(f p, p)]) = {}"
    using Cons.prems(2,3) by auto
  with Cons have "dict_comprehension pyfloat sep paths (d @ [(f p, p)])
        = Inr ((d @ [(f p, p)]) @ map (\<lambda>p. (f p, p)) paths)"
    by simp
  then show ?case
    using Cons.prems(1) fresh by (simp add: call_filename_to_angles_def update_fresh_key)
qed

lemma dict_comprehension_entries:
  assumes "dict_comprehension pyfloat sep paths d = Inr d'"
    and "(k, p) \<in> set d'"
  shows "(k, p) \<in> set d \<or> (p \<in> set paths \<and> filename_to_angles pyfloat p sep = Inr k)"
  using assms
proof (induction paths arbitrary: d)
  case Nil
  then show ?case by simp
next
  case (Cons q paths)
  from Cons.prems(1) obtain a where a: "filename_to_angles pyfloat q sep = Inr a"
    and rest: "dict_comprehension pyfloat sep paths (AList.update a q d) = Inr d'"
    by (auto simp: call_filename_to_angles_def split: sum.splits)
  from Cons.IH [OF rest Cons.prems(2)] show ?case
    using a set_update_subset [of a q d] by auto
qed

lemma dict_comprehension_keys_distinct:
  assumes "dict_comprehension pyfloat sep paths d = Inr d'" and "distinct (map fst d)"
  shows "distinct (map fst d')"
  using assms
  by (induction paths arbitrary: d) (auto simp: distinct_update split: sum.splits)

lemma parsed_path_not_empty:
  assumes "filename_to_angles pyfloat p sep = Inr k"
  shows "p \<noteq> []"
proof
  assume "p = []"
  then have "stem p = []" by (simp add: stem_def)
  with assms show False
    by (auto simp: filename_to_angles_def str_split_def float_token_def split: if_splits sum.splits option.splits)
qed

lemma parser_exceptions:
  assumes "filename_to_angles pyfloat p sep = Inl e"
  shows "e = ValueError_empty_separator \<or> e = ValueError_invalid_angle (split_from sep [] (stem p))
         \<or> e = IndexError"
  using assms
  by (auto simp: filename_to_angles_def str_split_def float_token_def
        split: if_splits sum.splits option.splits)

lemma dict_comprehension_exceptions:
  assumes "dict_comprehension pyfloat sep paths d = Inl e"
  shows "\<exists>p \<in> set paths. filename_to_angles pyfloat p sep = Inl e"
  using assms
  by (induction paths arbitrary: d) (auto simp: call_filename_to_angles_def split: sum.splits)

lemma dict_comprehension_total:
  assumes "\<forall>p \<in> set paths. filename_to_angles pyfloat p sep = Inr (f p)"
  shows "\<exists>d'. dict_comprehension pyfloat sep paths d = Inr d'
              \<and> fst ` set d' = fst ` set d \<union> f ` set paths"
  using assms
proof (induction paths arbitrary: d)
  case Nil
  then show ?case by simp
next
  case (Cons p paths)
  then obtain d' where "dict_comprehension pyfloat sep paths (AList.update (f p) p d) = Inr d'"
    and "fst ` set d' = fst ` set (AList.update (f p) p d) \<union> f ` set paths"
    by (metis list.set_intros(2))
  then show ?case
    using Cons.prems by (auto simp: call_filename_to_angles_def dom_update)
qed

text \<open>For every archive the constructor writes nothing to \<^verbatim>\<open>stderr\<close> and never raises
  the \<^verbatim>\<open>RuntimeError\<close> of line 70: the duplicate branch is entered only with at least one
  path, and then the list comprehension raises first.\<close>

lemma init_never_reports:
  "snd (Btfzip_init set_iter pyfloat zp z ext sep) = []
   \<and> fst (Btfzip_init set_iter pyfloat zp z ext sep) \<noteq> Inl (RuntimeError_duplicated zp)"
proof -
  define ps where "ps = set_iter (remdups (filter (\<lambda>path. endswith path ext) (namelist z)))"
  have no: "dict_comprehension pyfloat sep ps [] \<noteq> Inl (RuntimeError_duplicated zp)"
    using dict_comprehension_exceptions parser_exceptions by fastforce
  show ?thesis
  proof (cases "ps = []")
    case True
    then show ?thesis
      by (simp add: Btfzip_init_def ps_def [symmetric])
  next
    case False
    then show ?thesis
      using no
      by (auto simp: Btfzip_init_def ps_def [symmetric] Let_def list_comprehension_no_sep
            split: sum.splits)
  qed
qed

text \<open>When all retained paths parse and two of them give the same tuple, the constructor
  raises \<^verbatim>\<open>TypeError\<close>, whatever the iteration order.\<close>

lemma init_duplicate_TypeError:
  assumes it: "set (set_iter R) = set R" "distinct (set_iter R)"
    and R: "R = remdups (filter (\<lambda>path. endswith path ext) (namelist z))"
    and ok: "\<forall>p \<in> set R. filename_to_angles pyfloat p sep = Inr (f p)"
    and dup: "\<not> inj_on f (set R)"
  shows "Btfzip_init set_iter pyfloat zp z ext sep = (Inl TypeError_missing_sep, [])"
proof -
  define ps where "ps = set_iter R"
  from ok it have ok': "\<forall>p \<in> set ps. filename_to_angles pyfloat p sep = Inr (f p)"
    by (simp add: ps_def)
  have ne: "ps \<noteq> []"
    using dup it by (auto simp: ps_def inj_on_def)
  from dict_comprehension_total [OF ok', of "[]"]
  obtain d where d: "dict_comprehension pyfloat sep ps [] = Inr d" "fst ` set d = f ` set ps"
    by auto
  have "card (f ` set ps) \<noteq> card (set ps)"
    using dup it(1) eq_card_imp_inj_on [of "set ps" f] by (auto simp: ps_def)
  then have "length ps \<noteq> card (fst ` set d)"
    using it(2) d(2) by (simp add: ps_def distinct_card)
  then show ?thesis
    using d(1) ne
    by (simp add: Btfzip_init_def R [symmetric] ps_def [symmetric] list_comprehension_no_sep)
qed

lemma init_distinct:
  assumes it: "set (set_iter R) = set R" "distinct (set_iter R)"
    and R: "R = remdups (filter (\<lambda>path. endswith path ext) (namelist z))"
    and ok: "\<forall>p \<in> set R. filename_to_angles pyfloat p sep = Inr (f p)"
    and inj: "inj_on f (set R)"
  shows "Btfzip_init set_iter pyfloat zp z ext sep =
           (Inr \<lparr>zip_filepath = zp, private_z = z,
                 private_angles_vs_filepath_dict = map (\<lambda>p. (f p, p)) (set_iter R),
                 angles_set = f ` set R\<rparr>, [])"
proof -
  define ps where "ps = set_iter R"
  from ok it have ok': "\<forall>p \<in> set ps. filename_to_angles pyfloat p sep = Inr (f p)"
    by (simp add: ps_def)
  have dist: "distinct (map f ps)"
    using inj it by (simp add: ps_def distinct_map)
  have d: "dict_comprehension pyfloat sep ps [] = Inr (map (\<lambda>p. (f p, p)) ps)"
    using dict_comprehension_distinct [OF ok' dist, of "[]"] by simp
  have keys: "set (map fst (map (\<lambda>p. (f p, p)) ps)) = f ` set ps"
    by (simp add: image_image)
  have "card (f ` set ps) = length ps"
    using dist by (metis distinct_card length_map set_map)
  then show ?thesis
    using it(1)
    by (simp add: Btfzip_init_def R [symmetric] ps_def [symmetric] d Let_def image_image o_def)
qed

text \<open>The definitions unfolded to evaluate the constructor on a concrete archive.\<close>

lemmas eval_defs = Btfzip_init_def namelist_def endswith_def call_filename_to_angles_def
  filename_to_angles_def stem_def str_split_def float_token_def dec_float_def digit_val_def

text \<open>Claim C1. The claim asks that an archive in which two retained entries parse to the
  same tuple makes the constructor write one line per duplicated tuple to \<^verbatim>\<open>stderr\<close> and
  raise \<^verbatim>\<open>RuntimeError\<close>. On the archive with \<^verbatim>\<open>tl0 pl0 tv0 pv0.exr\<close> and
  \<^verbatim>\<open>d/tl0 pl0 tv0 pv0.exr\<close> the code raises \<^verbatim>\<open>TypeError\<close> and writes nothing, in either
  iteration order of the two paths.\<close>

theorem duplicate_conditions_TypeError:
  "Btfzip_init (\<lambda>paths. paths) dec_float ''a.zip''
     [(''tl0 pl0 tv0 pv0.exr'', Inr ''x''), (''d/tl0 pl0 tv0 pv0.exr'', Inr ''y'')] ''.exr'' '' ''
   = (Inl TypeError_missing_sep, [])
   \<and> Btfzip_init rev dec_float ''a.zip''
     [(''tl0 pl0 tv0 pv0.exr'', Inr ''x''), (''d/tl0 pl0 tv0 pv0.exr'', Inr ''y'')] ''.exr'' '' ''
   = (Inl TypeError_missing_sep, [])"
  by (simp add: eval_defs)

text \<open>Claim C2. The claim asks that the parser strips a suffix as long as the configured
  extension. The code strips four characters: with the extension \<^verbatim>\<open>.gz\<close> the entry
  \<^verbatim>\<open>tl0 pl0 tv0 pv10.gz\<close> loses the last digit of its fourth angle and is indexed under
  \<open>(0, 0, 0, 1)\<close>; with \<^verbatim>\<open>.jpeg\<close> the stem of \<^verbatim>\<open>tl0 pl0 tv0 pv0.5.jpeg\<close> keeps a dot
  and the parser raises \<^verbatim>\<open>ValueError\<close>.\<close>

theorem extension_length_fixed:
  "stem ''tl0 pl0 tv0 pv10.gz'' = ''tl0 pl0 tv0 pv1''
   \<and> filename_to_angles dec_float ''tl0 pl0 tv0 pv10.gz'' '' '' = Inr (0, 0, 0, 1)
   \<and> Btfzip_init (\<lambda>paths. paths) dec_float ''a.zip'' [(''tl0 pl0 tv0 pv10.gz'', Inr ''x'')] ''.gz'' '' ''
     = (Inr \<lparr>zip_filepath = ''a.zip'', private_z = [(''tl0 pl0 tv0 pv10.gz'', Inr ''x'')],
             private_angles_vs_filepath_dict = [((0, 0, 0, 1), ''tl0 pl0 tv0 pv10.gz'')],
             angles_set = {(0, 0, 0, 1)}\<rparr>, [])
   \<and> stem ''tl0 pl0 tv0 pv0.5.jpeg'' = ''tl0 pl0 tv0 pv0.5.''
   \<and> filename_to_angles dec_float ''tl0 pl0 tv0 pv0.5.jpeg'' '' ''
     = Inl (ValueError_invalid_angle [''tl0'', ''pl0'', ''tv0'', ''pv0.5.''])"
  by (simp add: eval_defs)

text \<open>What holds of every object the constructor returns.\<close>

lemma init_entries:
  assumes "Btfzip_init set_iter pyfloat zp z ext sep = (Inr self, err)"
  shows "private_z self = z \<and> zip_filepath self = zp
       \<and> angles_set self = fst ` set (private_angles_vs_filepath_dict self)
       \<and> distinct (map fst (private_angles_vs_filepath_dict self))
       \<and> (\<forall>(k, p) \<in> set (private_angles_vs_filepath_dict self).
             p \<in> set (set_iter (remdups (filter (\<lambda>path. endswith path ext) (namelist z))))
             \<and> filename_to_angles pyfloat p sep = Inr k)"
proof -
  define ps where "ps = set_iter (remdups (filter (\<lambda>path. endswith path ext) (namelist z)))"
  from assms obtain d where d: "dict_comprehension pyfloat sep ps [] = Inr d"
    and self: "self = \<lparr>zip_filepath = zp, private_z = z,
                 private_angles_vs_filepath_dict = d, angles_set = set (map fst d)\<rparr>"
    by (auto simp: Btfzip_init_def ps_def [symmetric] Let_def split: sum.splits if_splits)
  have "distinct (map fst d)"
    using dict_comprehension_keys_distinct [OF d] by simp
  moreover have "\<forall>(k, p) \<in> set d. p \<in> set ps \<and> filename_to_angles pyfloat p sep = Inr k"
    using dict_comprehension_entries [OF d] by auto
  ultimately show ?thesis
    by (simp add: self ps_def)
qed

lemma init_handle_only:
  assumes "filter (\<lambda>path. endswith path ext) (namelist z')
         = filter (\<lambda>path. endswith path ext) (namelist z)"
  shows "Btfzip_init set_iter pyfloat zp z' ext sep =
          (case Btfzip_init set_iter pyfloat zp z ext sep of
             (Inl e, err) \<Rightarrow> (Inl e, err)
           | (Inr self, err) \<Rightarrow> (Inr (self\<lparr>private_z := z'\<rparr>), err))"
  by (simp add: Btfzip_init_def assms Let_def split: sum.splits)

text \<open>Claim C6. Entries whose path does not end with the configured extension are
  excluded before parsing: two archives with the same retained entries give the same
  outcome (the same exception, or the same dictionary and key set; only the stored handle
  differs), whatever their other entries are; and every path of the dictionary ends with
  the extension, is an entry of the archive and parses to its key.\<close>

theorem other_extensions_excluded:
  assumes "set (set_iter (remdups (filter (\<lambda>path. endswith path ext) (namelist z))))
         = set (remdups (filter (\<lambda>path. endswith path ext) (namelist z)))"
    and "filter (\<lambda>path. endswith path ext) (namelist z')
       = filter (\<lambda>path. endswith path ext) (namelist z)"
  shows "Btfzip_init set_iter pyfloat zp z' ext sep =
          (case Btfzip_init set_iter pyfloat zp z ext sep of
             (Inl e, err) \<Rightarrow> (Inl e, err)
           | (Inr self, err) \<Rightarrow> (Inr (self\<lparr>private_z := z'\<rparr>), err))
       \<and> (\<forall>self err. Btfzip_init set_iter pyfloat zp z ext sep = (Inr self, err) \<longrightarrow>
            angles_set self = fst ` set (private_angles_vs_filepath_dict self)
          \<and> (\<forall>(k, p) \<in> set (private_angles_vs_filepath_dict self).
                endswith p ext \<and> p \<in> set (namelist z)
              \<and> filename_to_angles pyfloat p sep = Inr k))"
proof (intro conjI allI impI)
  show "Btfzip_init set_iter pyfloat zp z' ext sep =
          (case Btfzip_init set_iter pyfloat zp z ext sep of
             (Inl e, err) \<Rightarrow> (Inl e, err)
           | (Inr self, err) \<Rightarrow> (Inr (self\<lparr>private_z := z'\<rparr>), err))"
    by (rule init_handle_only [OF assms(2)])
next
  fix self err assume "Btfzip_init set_iter pyfloat zp z ext sep = (Inr self, err)"
  from init_entries [OF this]
  show "angles_set self = fst ` set (private_angles_vs_filepath_dict self)"
    by simp
next
  fix self err assume "Btfzip_init set_iter pyfloat zp z ext sep = (Inr self, err)"
  from init_entries [OF this]
  show "\<forall>(k, p) \<in> set (private_angles_vs_filepath_dict self).
                endswith p ext \<and> p \<in> set (namelist z)
              \<and> filename_to_angles pyfloat p sep = Inr k"
    using assms(1) by auto
qed

text \<open>An archive with a stray \<^verbatim>\<open>README.txt\<close>, which the parser would reject, is indexed
  like the archive without it.\<close>

theorem other_extensions_excluded_witness:
  "Btfzip_init (\<lambda>paths. paths) dec_float ''a.zip''
     [(''tl0 pl0 tv0 pv0.exr'', Inr ''x''), (''README.txt'', Inr ''y'')] ''.exr'' '' ''
   = (Inr \<lparr>zip_filepath = ''a.zip'',
           private_z = [(''tl0 pl0 tv0 pv0.exr'', Inr ''x''), (''README.txt'', Inr ''y'')],
           private_angles_vs_filepath_dict = [((0, 0, 0, 0), ''tl0 pl0 tv0 pv0.exr'')],
           angles_set = {(0, 0, 0, 0)}\<rparr>, [])
   \<and> filename_to_angles dec_float ''README.txt'' '' '' = Inl (ValueError_invalid_angle [''README''])"
  using other_extensions_excluded [of "\<lambda>paths. paths" "''.exr''"
      "[(''tl0 pl0 tv0 pv0.exr'', Inr ''x'')]"
      "[(''tl0 pl0 tv0 pv0.exr'', Inr ''x''), (''README.txt'', Inr ''y'')]"
      dec_float "''a.zip''" "'' ''"]
  by (simp add: eval_defs)

subsection \<open>Lookup and decode\<close>

lemma angles_to_image_present:
  assumes "dict_get int_as_float (private_angles_vs_filepath_dict self) key = Some p" "p \<noteq> []"
  shows "angles_to_image int_as_float imdecode self key =
           (case open_read (private_z self) p of
              Inl e \<Rightarrow> Inl e
            | Inr bytes \<Rightarrow>
               (case imdecode bytes of
                  Inl msg \<Rightarrow> Inl (ExternalError msg)
                | Inr img \<Rightarrow> Inr img), self)"
  using assms by (simp add: angles_to_image_def split: sum.splits)

lemma angles_to_image_self:
  "snd (angles_to_image int_as_float imdecode self key) = self"
  by (simp add: angles_to_image_def Let_def split: sum.splits)

lemma dict_get_entry:
  assumes "dict_get int_as_float d key = Some p"
  shows "\<exists>k. (k, p) \<in> set d"
proof -
  obtain a b c e where "key = (a, b, c, e)" by (cases key) auto
  with assms show ?thesis
    by (fastforce split: option.splits dest: map_of_SomeD)
qed

text \<open>Claim C7. When the retained paths all parse and their tuples are pairwise distinct,
  the constructor succeeds and writes nothing; the key set has as many elements as there
  are retained paths and is the set of keys of the dictionary; each retained path is the
  value of exactly one key, so the dictionary is injective on the key set; and a lookup
  returns the object as it was.\<close>

theorem distinct_conditions:
  assumes "set (set_iter R) = set R" "distinct (set_iter R)"
    and "R = remdups (filter (\<lambda>path. endswith path ext) (namelist z))"
    and "\<forall>p \<in> set R. filename_to_angles pyfloat p sep = Inr (f p)"
    and "inj_on f (set R)"
  shows "\<exists>self. Btfzip_init set_iter pyfloat zp z ext sep = (Inr self, [])
           \<and> card (angles_set self) = card (set (filter (\<lambda>path. endswith path ext) (namelist z)))
           \<and> angles_set self = f ` set R
           \<and> angles_set self = fst ` set (private_angles_vs_filepath_dict self)
           \<and> (\<forall>p \<in> set R. \<forall>k. map_of (private_angles_vs_filepath_dict self) k = Some p
                               \<longleftrightarrow> k = f p)
           \<and> inj_on (map_of (private_angles_vs_filepath_dict self)) (angles_set self)
           \<and> (\<forall>int_as_float (imdecode :: string \<Rightarrow> string + 'img) key.
                 snd (angles_to_image int_as_float imdecode self key) = self)"
proof -
  let ?d = "map (\<lambda>p. (f p, p)) (set_iter R)"
  let ?self = "\<lparr>zip_filepath = zp, private_z = z,
                 private_angles_vs_filepath_dict = ?d, angles_set = f ` set R\<rparr>"
  have init: "Btfzip_init set_iter pyfloat zp z ext sep = (Inr ?self, [])"
    using assms by (rule init_distinct)
  have card: "card (f ` set R) = card (set (filter (\<lambda>path. endswith path ext) (namelist z)))"
    using assms(3,5) by (simp add: card_image)
  have keys: "f ` set R = fst ` set ?d"
    using assms(1) by (simp add: image_image)
  have dist: "distinct (map fst ?d)"
    using assms(1,2,5) by (simp add: distinct_map o_def)
  have look: "map_of ?d k = Some p \<longleftrightarrow> k = f p" if "p \<in> set R" for p k
  proof
    assume "map_of ?d k = Some p"
    then have "(k, p) \<in> set ?d" by (rule map_of_SomeD)
    then show "k = f p" by auto
  next
    assume "k = f p"
    moreover have "(f p, p) \<in> set ?d" using that assms(1) by auto
    ultimately show "map_of ?d k = Some p"
      using dist by simp
  qed
  have inj: "inj_on (map_of ?d) (f ` set R)"
  proof (rule inj_onI)
    fix x y assume x: "x \<in> f ` set R" and y: "y \<in> f ` set R" and eq: "map_of ?d x = map_of ?d y"
    from x obtain p where p: "p \<in> set R" "x = f p" by auto
    then have "map_of ?d x = Some p" using look by simp
    with eq have "map_of ?d y = Some p" by simp
    then show "x = y" using look p by simp
  qed
  show ?thesis
    apply (rule exI [of _ ?self])
    using init card keys look inj by (simp add: angles_to_image_self)
qed

text \<open>An archive with two images of distinct conditions and a text file.\<close>

theorem distinct_conditions_witness:
  "\<exists>self. Btfzip_init (\<lambda>paths. paths) dec_float ''a.zip''
            [(''tl0 pl0 tv0 pv0.exr'', Inr ''x''), (''tl0 pl0 tv1 pv0.exr'', Inr ''y''),
             (''notes.txt'', Inr ''z'')] ''.exr'' '' '' = (Inr self, [])
         \<and> card (angles_set self) = 2
         \<and> angles_set self = {(0, 0, 0, 0), (0, 0, 1, 0)}"
proof -
  let ?a = "''tl0 pl0 tv0 pv0.exr''" and ?b = "''tl0 pl0 tv1 pv0.exr''"
  let ?z = "[(?a, Inr ''x''), (?b, Inr ''y''), (''notes.txt'', Inr ''z'')]"
  let ?f = "\<lambda>p. if p = ?a then (0, 0, 0, 0) else (0, 0, 1, 0) :: rat AnglesTuple"
  have F: "filter (\<lambda>path. endswith path ''.exr'') (namelist ?z) = [?a, ?b]"
    by (simp add: namelist_def endswith_def)
  have R: "[?a, ?b] = remdups (filter (\<lambda>path. endswith path ''.exr'') (namelist ?z))"
    unfolding F by simp
  have pa: "filename_to_angles dec_float ?a '' '' = Inr (0, 0, 0, 0)"
    by (simp add: filename_to_angles_def stem_def str_split_def float_token_def
          dec_float_def digit_val_def)
  have pb: "filename_to_angles dec_float ?b '' '' = Inr (0, 0, 1, 0)"
    by (simp add: filename_to_angles_def stem_def str_split_def float_token_def
          dec_float_def digit_val_def)
  have ok: "\<forall>p \<in> set [?a, ?b]. filename_to_angles dec_float p '' '' = Inr (?f p)"
    using pa pb by simp
  have inj: "inj_on ?f (set [?a, ?b])"
    by (simp add: inj_on_def)
  have "\<exists>self. Btfzip_init (\<lambda>paths. paths) dec_float ''a.zip'' ?z ''.exr'' '' '' = (Inr self, [])
           \<and> card (angles_set self)
              = card (set (filter (\<lambda>path. endswith path ''.exr'') (namelist ?z)))
           \<and> angles_set self = ?f ` set [?a, ?b]"
    using distinct_conditions [where set_iter = "\<lambda>paths. paths" and zp = "''a.zip''",
        OF refl _ R ok inj]
    by fastforce
  then obtain self where init: "Btfzip_init (\<lambda>paths. paths) dec_float ''a.zip'' ?z ''.exr'' '' '' = (Inr self, [])"
    and n: "card (angles_set self) = card (set [?a, ?b])"
    and keys: "angles_set self = ?f ` set [?a, ?b]"
    unfolding F by blast
  have "card (angles_set self) = 2"
    using n by simp
  moreover have "angles_set self = {(0, 0, 0, 0), (0, 0, 1, 0)}"
    using keys by auto
  ultimately show ?thesis
    using init by blast
qed

text \<open>Claim C4. For an object the constructor returned and a tuple that is not a key of
  its dictionary, the lookup raises the \<^verbatim>\<open>ValueError\<close> that carries the tuple and the
  archive path, and the object after the call is unchanged: a following lookup of a key
  that is present reads and decodes its entry.\<close>

theorem not_found:
  assumes "Btfzip_init set_iter pyfloat zp z ext sep = (Inr self, err)"
    and "dict_get int_as_float (private_angles_vs_filepath_dict self) key = None"
  shows "angles_to_image int_as_float imdecode self key = (Inl (ValueError_not_exist key zp), self)
       \<and> is_ValueError (ValueError_not_exist key zp)
       \<and> (\<forall>key' p. dict_get int_as_float (private_angles_vs_filepath_dict self) key' = Some p \<longrightarrow>
             angles_to_image int_as_float imdecode
               (snd (angles_to_image int_as_float imdecode self key)) key'
             = (case open_read z p of
                  Inl e \<Rightarrow> Inl e
                | Inr bytes \<Rightarrow>
                   (case imdecode bytes of
                      Inl msg \<Rightarrow> Inl (ExternalError msg)
                    | Inr img \<Rightarrow> Inr img), self))"
proof (intro conjI allI impI)
  from init_entries [OF assms(1)] have zp: "zip_filepath self = zp" by simp
  show nf: "angles_to_image int_as_float imdecode self key = (Inl (ValueError_not_exist key zp), self)"
    using assms(2) by (simp add: angles_to_image_def zp)
  show "is_ValueError (ValueError_not_exist key zp)" by simp
  fix key' p
  assume p: "dict_get int_as_float (private_angles_vs_filepath_dict self) key' = Some p"
  then obtain k where "(k, p) \<in> set (private_angles_vs_filepath_dict self)"
    using dict_get_entry by blast
  with init_entries [OF assms(1)] have "filename_to_angles pyfloat p sep = Inr k" and z: "private_z self = z"
    by auto
  then have "p \<noteq> []" using parsed_path_not_empty by blast
  from angles_to_image_present [OF p this, of imdecode]
  show "angles_to_image int_as_float imdecode
               (snd (angles_to_image int_as_float imdecode self key)) key'
             = (case open_read z p of
                  Inl e \<Rightarrow> Inl e
                | Inr bytes \<Rightarrow>
                   (case imdecode bytes of
                      Inl msg \<Rightarrow> Inl (ExternalError msg)
                    | Inr img \<Rightarrow> Inr img), self)"
    by (simp add: nf z)
qed

text \<open>A lookup of an absent tuple on the object built from a one-entry archive.\<close>

theorem not_found_witness:
  "angles_to_image int_as_rat (\<lambda>bytes. Inr (length bytes))
     \<lparr>zip_filepath = ''a.zip'', private_z = [(''tl0 pl0 tv0 pv0.exr'', Inr ''img'')],
      private_angles_vs_filepath_dict = [((0, 0, 0, 0), ''tl0 pl0 tv0 pv0.exr'')],
      angles_set = {(0, 0, 0, 0)}\<rparr>
     (PyInt 1, PyInt 0, PyInt 0, PyInt 0)
   = (Inl (ValueError_not_exist (PyInt 1, PyInt 0, PyInt 0, PyInt 0) ''a.zip''),
      \<lparr>zip_filepath = ''a.zip'', private_z = [(''tl0 pl0 tv0 pv0.exr'', Inr ''img'')],
       private_angles_vs_filepath_dict = [((0, 0, 0, 0), ''tl0 pl0 tv0 pv0.exr'')],
       angles_set = {(0, 0, 0, 0)}\<rparr>)"
proof -
  let ?z = "[(''tl0 pl0 tv0 pv0.exr'', Inr ''img'')]"
  let ?self = "\<lparr>zip_filepath = ''a.zip'', private_z = ?z,
      private_angles_vs_filepath_dict = [((0, 0, 0, 0), ''tl0 pl0 tv0 pv0.exr'')],
      angles_set = {(0, 0, 0, 0)}\<rparr> :: rat Btfzip"
  have init: "Btfzip_init (\<lambda>paths. paths) dec_float ''a.zip'' ?z ''.exr'' '' '' = (Inr ?self, [])"
    by (simp add: eval_defs)
  have absent: "dict_get int_as_rat (private_angles_vs_filepath_dict ?self)
                  (PyInt 1, PyInt 0, PyInt 0, PyInt 0) = None"
    by (simp add: int_as_rat_def)
  show ?thesis
    using not_found [OF init absent, of "\<lambda>bytes. Inr (length bytes)", THEN conjunct1]
    by simp
qed

text \<open>Claim C8. For an object the constructor returned and a key of its dictionary, two
  successive lookups return the same result, the decoding of the bytes of the entry stored
  under the key, and both leave the object unchanged.\<close>

theorem decode_twice:
  assumes "Btfzip_init set_iter pyfloat zp z ext sep = (Inr self, err)"
    and "dict_get int_as_float (private_angles_vs_filepath_dict self) key = Some p"
  shows "\<exists>r. r = (case open_read z p of
                   Inl e \<Rightarrow> Inl e
                 | Inr bytes \<Rightarrow>
                    (case imdecode bytes of
                       Inl msg \<Rightarrow> Inl (ExternalError msg)
                     | Inr img \<Rightarrow> Inr img))
           \<and> angles_to_image int_as_float imdecode self key = (r, self)
           \<and> angles_to_image int_as_float imdecode
               (snd (angles_to_image int_as_float imdecode self key)) key = (r, self)"
proof -
  from assms(2) obtain k where "(k, p) \<in> set (private_angles_vs_filepath_dict self)"
    using dict_get_entry by blast
  with init_entries [OF assms(1)] have "filename_to_angles pyfloat p sep = Inr k" and z: "private_z self = z"
    by auto
  then have "p \<noteq> []" using parsed_path_not_empty by blast
  from angles_to_image_present [OF assms(2) this, of imdecode]
  show ?thesis by (simp add: z)
qed

text \<open>A lookup of the present tuple on the same object.\<close>

theorem decode_twice_witness:
  "angles_to_image int_as_rat (\<lambda>bytes. Inr (length bytes))
     \<lparr>zip_filepath = ''a.zip'', private_z = [(''tl0 pl0 tv0 pv0.exr'', Inr ''img'')],
      private_angles_vs_filepath_dict = [((0, 0, 0, 0), ''tl0 pl0 tv0 pv0.exr'')],
      angles_set = {(0, 0, 0, 0)}\<rparr>
     (PyFloat 0, PyFloat 0, PyFloat 0, PyFloat 0)
   = (Inr 3,
      \<lparr>zip_filepath = ''a.zip'', private_z = [(''tl0 pl0 tv0 pv0.exr'', Inr ''img'')],
       private_angles_vs_filepath_dict = [((0, 0, 0, 0), ''tl0 pl0 tv0 pv0.exr'')],
       angles_set = {(0, 0, 0, 0)}\<rparr>)"
proof -
  let ?z = "[(''tl0 pl0 tv0 pv0.exr'', Inr ''img'')]"
  let ?self = "\<lparr>zip_filepath = ''a.zip'', private_z = ?z,
      private_angles_vs_filepath_dict = [((0, 0, 0, 0), ''tl0 pl0 tv0 pv0.exr'')],
      angles_set = {(0, 0, 0, 0)}\<rparr> :: rat Btfzip"
  have init: "Btfzip_init (\<lambda>paths. paths) dec_float ''a.zip'' ?z ''.exr'' '' '' = (Inr ?self, [])"
    by (simp add: eval_defs)
  have present: "dict_get int_as_rat (private_angles_vs_filepath_dict ?self)
                  (PyFloat 0, PyFloat 0, PyFloat 0, PyFloat 0) = Some ''tl0 pl0 tv0 pv0.exr''"
    by simp
  have rd: "open_read ?z ''tl0 pl0 tv0 pv0.exr'' = (Inr ''img'' :: rat exn + string)"
    by (simp add: open_read_def)
  show ?thesis
    using decode_twice [OF init present, of "\<lambda>bytes. Inr (length bytes)"]
    by (simp add: rd)
qed

text \<open>Claim C9. For the archive whose only entry is \<^verbatim>\<open>tl0 pl0 tv0 pv0.exr\<close>, with the
  default extension and separator, where \<^verbatim>\<open>float("0")\<close> is the float equal to the integer
  \<open>0\<close>: the key set is that one tuple of four zeros, and the lookup with the four
  integers \<open>0\<close> finds the entry and returns the decoding of its bytes.\<close>

theorem single_entry:
  assumes "pyfloat ''0'' = Some zero" and "int_as_float 0 = Some zero"
    and "set_iter [''tl0 pl0 tv0 pv0.exr''] = [''tl0 pl0 tv0 pv0.exr'']"
  shows "\<exists>self. Btfzip_init set_iter pyfloat zp [(''tl0 pl0 tv0 pv0.exr'', Inr bytes)] ''.exr'' '' ''
                  = (Inr self, [])
           \<and> angles_set self = {(zero, zero, zero, zero)}
           \<and> dict_get int_as_float (private_angles_vs_filepath_dict self)
                (PyInt 0, PyInt 0, PyInt 0, PyInt 0) = Some ''tl0 pl0 tv0 pv0.exr''
           \<and> angles_to_image int_as_float imdecode self (PyInt 0, PyInt 0, PyInt 0, PyInt 0)
               = (case imdecode bytes of
                    Inl msg \<Rightarrow> Inl (ExternalError msg)
                  | Inr img \<Rightarrow> Inr img, self)"
proof -
  let ?name = "''tl0 pl0 tv0 pv0.exr''"
  let ?z = "[(?name, Inr bytes)]"
  have R: "[?name] = remdups (filter (\<lambda>path. endswith path ''.exr'') (namelist ?z))"
    by (simp add: namelist_def endswith_def)
  have parse: "\<forall>p \<in> set [?name]. filename_to_angles pyfloat p '' '' = Inr (zero, zero, zero, zero)"
    using assms(1) by (simp add: filename_to_angles_def stem_def str_split_def float_token_def)
  have init: "Btfzip_init set_iter pyfloat zp ?z ''.exr'' '' '' =
           (Inr \<lparr>zip_filepath = zp, private_z = ?z,
                 private_angles_vs_filepath_dict = map (\<lambda>p. ((zero, zero, zero, zero), p)) (set_iter [?name]),
                 angles_set = (\<lambda>p. (zero, zero, zero, zero)) ` set [?name]\<rparr>, [])"
    by (rule init_distinct [where f = "\<lambda>p. (zero, zero, zero, zero)", OF _ _ R parse])
       (simp_all add: assms(3))
  show ?thesis
    unfolding init
    by (rule exI, intro conjI, rule refl)
       (simp_all add: assms angles_to_image_def open_read_def split: sum.splits)
qed


text \<open>The single-entry archive with the example float parser.\<close>

theorem single_entry_witness:
  "\<exists>self. Btfzip_init (\<lambda>paths. paths) dec_float ''a.zip''
            [(''tl0 pl0 tv0 pv0.exr'', Inr ''img'')] ''.exr'' '' '' = (Inr self, [])
         \<and> angles_set self = {(0, 0, 0, 0)}
         \<and> angles_to_image int_as_rat (\<lambda>bytes. Inr (length bytes)) self
              (PyInt 0, PyInt 0, PyInt 0, PyInt 0) = (Inr 3, self)"
proof -
  have f: "dec_float ''0'' = Some 0"
    by (simp add: dec_float_def digit_val_def)
  have i: "int_as_rat 0 = Some 0"
    by (simp add: int_as_rat_def)
  show ?thesis
    using single_entry [where pyfloat = dec_float and int_as_float = int_as_rat
        and set_iter = "\<lambda>paths. paths" and zp = "''a.zip''" and bytes = "''img''"
        and imdecode = "\<lambda>bytes. Inr (length bytes)", OF f i refl]
    by auto
qed

end
